theory Spec2Isabelle
  imports Main "HOL-Library.Word"
begin

section \<open>JavaScript values used by both components\<close>

text \<open>
  Strings are \<open>string\<close> (lists of 8-bit characters): the model covers JavaScript strings
  whose code units are below 256.  A value that may be \<open>undefined\<close> or \<open>null\<close> at run
  time is an \<open>option\<close>, with \<open>None\<close> for the missing value.

  A thrown value is a \<open>js_error\<close>: an \<open>Error\<close> or a \<open>TypeError\<close> with its message, or
  the \<open>ProgressEvent\<close> that \<open>FileReader.onerror\<close> receives (it has no \<open>message\<close>
  property).  A function that may throw, or a promise that may reject, returns
  \<open>js_error + 'a\<close> with \<open>Inl\<close> for the thrown value.
\<close>

datatype js_error = Error string | TypeError string | ProgressEvent

text \<open>\<open>err.message\<close>, \<open>None\<close> standing for \<open>undefined\<close>.\<close>

fun message :: "js_error \<Rightarrow> string option" where
  "message (Error m) = Some m"
| "message (TypeError m) = Some m"
| "message ProgressEvent = None"

text \<open>Truthiness of a value of type \<open>string | undefined | null\<close>: a non-empty string.\<close>

fun truthy :: "string option \<Rightarrow> bool" where
  "truthy None = False"
| "truthy (Some s) = (s \<noteq> [])"

text \<open>A value of type \<open>string | undefined\<close> inside a template literal.\<close>

fun template :: "string option \<Rightarrow> string" where
  "template None = ''undefined''"
| "template (Some s) = s"

section \<open>Synthesis client (src/services/geminiService.ts)\<close>

subsection \<open>Data model\<close>

text \<open>
  \<open>ImagePart\<close> and \<open>SynthesisResult\<close> are the interfaces of the source file.  The field
  \<open>data\<close> is declared \<open>string\<close>, but its only producer resolves with
  \<open>result.split(',')[1]\<close>, which is \<open>undefined\<close> when there is no second segment; hence
  the option.  \<open>Blob\<close>, \<open>Part\<close>, \<open>Content\<close>, \<open>Candidate\<close> and the response are the
  types of the \<open>@google/genai\<close> library, all of whose fields are optional.
\<close>

record ImagePart =
  mimeType :: string
  data :: "string option"

record SynthesisResult =
  imageUrl :: "string option"
  resultText :: "string option"

record Blob =
  blobMimeType :: "string option"
  blobData :: "string option"

record Part =
  inlineData :: "Blob option"
  partText :: "string option"

record Content =
  parts :: "Part list option"

record Candidate =
  content :: "Content option"

record GenerateContentResponse =
  candidates :: "Candidate list option"

datatype Modality = IMAGE | TEXT

record GenerateContentParameters =
  model :: string
  contents :: "Part list"
  responseModalities :: "Modality list"

text \<open>
  The effects of the program on its environment: the requests handed to
  \<open>ai.models.generateContent\<close>, the values written with \<open>console.error\<close>, and the
  object URLs of the browser (a counter for \<open>URL.createObjectURL\<close>, which returns a
  fresh URL on every call, and the log of the calls of \<open>URL.revokeObjectURL\<close>).
\<close>

type_synonym object_url = nat

record world =
  sent :: "GenerateContentParameters list"
  console :: "js_error list"
  next_url :: object_url
  revoked :: "object_url list"

text \<open>
  The remote endpoint is a parameter: what the awaited call gives for a request, either
  a rejection or a response.
\<close>

type_synonym remote = "GenerateContentParameters \<Rightarrow> js_error + GenerateContentResponse"

definition generateContent ::
  "remote \<Rightarrow> GenerateContentParameters \<Rightarrow> world \<Rightarrow> (js_error + GenerateContentResponse) \<times> world" where
  "generateContent api req w = (api req, w\<lparr>sent := sent w @ [req]\<rparr>)"

subsection \<open>Building the request (lines 30-50)\<close>

definition imageParts :: "ImagePart list \<Rightarrow> Part list" where
  "imageParts images =
     map (\<lambda>image. \<lparr>inlineData = Some \<lparr>blobMimeType = Some (mimeType image), blobData = data image\<rparr>,
                    partText = None\<rparr>) images"

definition textPart :: "string \<Rightarrow> Part" where
  "textPart prompt = \<lparr>inlineData = None, partText = Some prompt\<rparr>"

definition request :: "string \<Rightarrow> ImagePart list \<Rightarrow> GenerateContentParameters" where
  "request prompt images =
     \<lparr>model = ''gemini-2.5-flash-image-preview'',
      contents = imageParts images @ [textPart prompt],
      responseModalities = [IMAGE, TEXT]\<rparr>"

subsection \<open>Reading the response (lines 52-74)\<close>

text \<open>The test \<open>part.inlineData && part.inlineData.data\<close> of line 60.\<close>

definition hasInlineData :: "Part \<Rightarrow> bool" where
  "hasInlineData part =
     (case inlineData part of None \<Rightarrow> False | Some b \<Rightarrow> truthy (blobData b))"

text \<open>The template literal of line 63.\<close>

definition dataUrl :: "Blob \<Rightarrow> string" where
  "dataUrl b = ''data:'' @ template (blobMimeType b) @ '';base64,'' @ template (blobData b)"

text \<open>One iteration of the loop of lines 59-67, on the result assembled so far.\<close>

definition visitPart :: "SynthesisResult \<Rightarrow> Part \<Rightarrow> SynthesisResult" where
  "visitPart result part =
     (case inlineData part of
        Some b \<Rightarrow>
          if truthy (blobData b) then result\<lparr>imageUrl := Some (dataUrl b)\<rparr>
          else if truthy (partText part) then result\<lparr>resultText := partText part\<rparr>
          else result
      | None \<Rightarrow>
          if truthy (partText part) then result\<lparr>resultText := partText part\<rparr>
          else result)"

fun visitParts :: "SynthesisResult \<Rightarrow> Part list \<Rightarrow> SynthesisResult" where
  "visitParts result [] = result"
| "visitParts result (part # rest) = visitParts (visitPart result part) rest"

text \<open>
  Lines 57-68.  \<open>candidate.content.parts\<close> throws a \<open>TypeError\<close> when \<open>content\<close> is
  missing, and so does \<open>for ... of\<close> over missing \<open>parts\<close>.  The text of the message
  depends on the engine; nothing below depends on it.
\<close>

definition readCandidates :: "GenerateContentResponse \<Rightarrow> js_error + SynthesisResult" where
  "readCandidates response =
     (let result = \<lparr>imageUrl = None, resultText = None\<rparr> in
      case candidates response of
        None \<Rightarrow> Inr result
      | Some [] \<Rightarrow> Inr result
      | Some (candidate # _) \<Rightarrow>
          (case content candidate of
             None \<Rightarrow> Inl (TypeError ''Cannot read properties of undefined'')
           | Some c \<Rightarrow>
               (case parts c of
                  None \<Rightarrow> Inl (TypeError ''undefined is not iterable'')
                | Some ps \<Rightarrow> Inr (visitParts result ps))))"

definition noContentMessage :: string where
  "noContentMessage = ''API returned no content. The prompt might have been blocked.''"

definition failureMessage :: string where
  "failureMessage = ''Failed to synthesize image. Please check the console for more details.''"

text \<open>
  The body of the \<open>try\<close> block after the awaited call (lines 52-74): a rejection of the
  call is thrown here, and line 71 throws when neither field was set.
\<close>

definition tryBody :: "js_error + GenerateContentResponse \<Rightarrow> js_error + SynthesisResult" where
  "tryBody outcome =
     (case outcome of
        Inl e \<Rightarrow> Inl e
      | Inr response \<Rightarrow>
          (case readCandidates response of
             Inl e \<Rightarrow> Inl e
           | Inr result \<Rightarrow>
               if \<not> truthy (imageUrl result) \<and> \<not> truthy (resultText result)
               then Inl (Error noContentMessage)
               else Inr result))"

text \<open>
  \<open>synthesizeImage\<close>: the request is built and sent, the \<open>try\<close> body runs on the
  outcome, and the \<open>catch\<close> clause of lines 76-79 logs whatever was thrown inside the
  \<open>try\<close> block and throws an \<open>Error\<close> with the fixed failure message.
\<close>

definition synthesizeImage ::
  "remote \<Rightarrow> string \<Rightarrow> ImagePart list \<Rightarrow> world \<Rightarrow> (js_error + SynthesisResult) \<times> world" where
  "synthesizeImage api prompt images w =
     (let (outcome, w1) = generateContent api (request prompt images) w in
      case tryBody outcome of
        Inl e \<Rightarrow> (Inl (Error failureMessage), w1\<lparr>console := console w1 @ [e]\<rparr>)
      | Inr result \<Rightarrow> (Inr result, w1))"

section \<open>Image intake and submission (the \<open>App\<close> component)\<close>

subsection \<open>Files and the reader\<close>

text \<open>
  A \<open>File\<close> of the browser: its declared media type, its bytes, and whether reading it
  fails (the file was removed or is not readable when the reader gets to it).
\<close>

type_synonym byte = "8 word"

record File =
  name :: string
  type :: string
  bytes :: "byte list"
  readFails :: bool

text \<open>
  The base64 encoding of RFC 4648, which \<open>FileReader.readAsDataURL\<close> applies to the
  bytes of the file: three bytes give four characters of the alphabet, and a last group
  of one or two bytes is padded with \<open>=\<close>.
\<close>

definition alphabet :: string where
  "alphabet = ''ABCDEFGHIJKLMNOPQRSTUVWXYZabcdefghijklmnopqrstuvwxyz0123456789+/''"

definition sextetChar :: "nat \<Rightarrow> char" where
  "sextetChar n = alphabet ! (n mod 64)"

fun encodeGroups :: "nat list \<Rightarrow> string" where
  "encodeGroups [] = []"
| "encodeGroups [a] =
     [sextetChar (a div 4), sextetChar ((a mod 4) * 16), CHR ''='', CHR ''='']"
| "encodeGroups [a, b] =
     [sextetChar (a div 4), sextetChar ((a mod 4) * 16 + b div 16),
      sextetChar ((b mod 16) * 4), CHR ''='']"
| "encodeGroups (a # b # c # rest) =
     [sextetChar (a div 4), sextetChar ((a mod 4) * 16 + b div 16),
      sextetChar ((b mod 16) * 4 + c div 64), sextetChar (c mod 64)] @ encodeGroups rest"

definition base64 :: "byte list \<Rightarrow> string" where
  "base64 bs = encodeGroups (map unat bs)"

text \<open>The decoder: the position of a character in the alphabet, and groups of four.\<close>

fun position :: "char \<Rightarrow> string \<Rightarrow> nat option" where
  "position c [] = None"
| "position c (x # xs) = (if c = x then Some 0 else map_option Suc (position c xs))"

definition charSextet :: "char \<Rightarrow> nat option" where
  "charSextet c = position c alphabet"

fun decodeGroups :: "string \<Rightarrow> nat list option" where
  "decodeGroups [] = Some []"
| "decodeGroups (w # x # y # z # rest) =
     (if rest = [] \<and> y = CHR ''='' \<and> z = CHR ''='' then
        (case (charSextet w, charSextet x) of
           (Some p, Some q) \<Rightarrow> Some [p * 4 + q div 16]
         | _ \<Rightarrow> None)
      else if rest = [] \<and> z = CHR ''='' then
        (case (charSextet w, charSextet x, charSextet y) of
           (Some p, Some q, Some r) \<Rightarrow> Some [p * 4 + q div 16, (q mod 16) * 16 + r div 4]
         | _ \<Rightarrow> None)
      else
        (case (charSextet w, charSextet x, charSextet y, charSextet z) of
           (Some p, Some q, Some r, Some s) \<Rightarrow>
             map_option (\<lambda>bs. [p * 4 + q div 16, (q mod 16) * 16 + r div 4, (r mod 4) * 64 + s] @ bs)
               (decodeGroups rest)
         | _ \<Rightarrow> None))"
| "decodeGroups _ = None"

definition base64Decode :: "string \<Rightarrow> byte list option" where
  "base64Decode s = map_option (map word_of_nat) (decodeGroups s)"

text \<open>
  \<open>reader.readAsDataURL(file)\<close> followed by \<open>onload\<close> or \<open>onerror\<close>: the data URL of
  RFC 2397 with the declared type of the file and the base64 encoding of its bytes, or
  the event of the failed read.  Browsers differ in what they write for a file without a
  declared type; the payload after \<open>;base64,\<close> is the same in all of them.
\<close>

definition readAsDataURL :: "File \<Rightarrow> js_error + string" where
  "readAsDataURL f =
     (if readFails f then Inl ProgressEvent
      else Inr (''data:'' @ type f @ '';base64,'' @ base64 (bytes f)))"

text \<open>\<open>s.split(sep)\<close> for a separator of one character, and \<open>xs[i]\<close> of an array.\<close>

fun jsSplit :: "char \<Rightarrow> string \<Rightarrow> string list" where
  "jsSplit sep [] = [[]]"
| "jsSplit sep (c # cs) =
     (if c = sep then [] # jsSplit sep cs
      else (case jsSplit sep cs of
              [] \<Rightarrow> [[c]]
            | seg # segs \<Rightarrow> (c # seg) # segs))"

fun element :: "'a list \<Rightarrow> nat \<Rightarrow> 'a option" where
  "element [] i = None"
| "element (x # xs) 0 = Some x"
| "element (x # xs) (Suc i) = element xs i"

definition fileToBase64 :: "File \<Rightarrow> js_error + string option" where
  "fileToBase64 f =
     (case readAsDataURL f of
        Inl e \<Rightarrow> Inl e
      | Inr result \<Rightarrow> Inr (element (jsSplit (CHR '','') result) 1))"

subsection \<open>The state of the component and its handlers\<close>

record ImageFile =
  "file" :: File
  preview :: object_url

text \<open>
  The two messages \<open>setError\<close> is called with: the fixed text of line 58, and the text
  of line 81 with \<open>err.message\<close> spliced in.  Both texts are Korean and are kept
  abstract; the second carries the spliced message.
\<close>

datatype ui_message = MissingInput | GenerationFailed string

record App =
  imageFiles :: "ImageFile list"
  prompt :: string
  generatedImage :: "string option"
  generatedText :: "string option"
  isLoading :: bool
  error :: "ui_message option"

definition createObjectURL :: "File \<Rightarrow> world \<Rightarrow> object_url \<times> world" where
  "createObjectURL f w = (next_url w, w\<lparr>next_url := Suc (next_url w)\<rparr>)"

definition revokeObjectURL :: "object_url \<Rightarrow> world \<Rightarrow> world" where
  "revokeObjectURL u w = w\<lparr>revoked := revoked w @ [u]\<rparr>"

text \<open>The \<open>files.map\<close> of lines 21-24.\<close>

fun filePreviews :: "File list \<Rightarrow> world \<Rightarrow> ImageFile list \<times> world" where
  "filePreviews [] w = ([], w)"
| "filePreviews (f # fs) w =
     (let (u, w1) = createObjectURL f w;
          (rest, w2) = filePreviews fs w1
      in (\<lparr>file = f, preview = u\<rparr> # rest, w2))"

text \<open>\<open>handleFileChange\<close>; its argument is \<open>event.target.files\<close>, which may be null.\<close>

definition handleFileChange :: "File list option \<Rightarrow> App \<Rightarrow> world \<Rightarrow> App \<times> world" where
  "handleFileChange files s w =
     (case files of
        None \<Rightarrow> (s, w)
      | Some fs \<Rightarrow>
          (let (new, w1) = filePreviews fs w
           in (s\<lparr>imageFiles := imageFiles s @ new\<rparr>, w1)))"

text \<open>
  \<open>removeImage\<close>.  The index is an integer.  Outside the array \<open>newImageFiles[index]\<close>
  is \<open>undefined\<close> and reading its \<open>preview\<close> throws a \<open>TypeError\<close> before anything
  is revoked or stored; the first component of the result is the thrown value.  Inside
  the array \<open>splice(index, 1)\<close> drops the element at \<open>index\<close>.
\<close>

definition removeImage :: "int \<Rightarrow> App \<Rightarrow> world \<Rightarrow> js_error option \<times> App \<times> world" where
  "removeImage index s w =
     (let newImageFiles = imageFiles s in
      if 0 \<le> index \<and> index < int (length newImageFiles) then
        (let w1 = revokeObjectURL (preview (newImageFiles ! nat index)) w;
             spliced = take (nat index) newImageFiles @ drop (Suc (nat index)) newImageFiles
         in (None, s\<lparr>imageFiles := spliced\<rparr>, w1))
      else (Some (TypeError ''Cannot read properties of undefined''), s, w))"

definition clearAllImages :: "App \<Rightarrow> world \<Rightarrow> App \<times> world" where
  "clearAllImages s w =
     (s\<lparr>imageFiles := []\<rparr>, fold (\<lambda>imgFile. revokeObjectURL (preview imgFile)) (imageFiles s) w)"

text \<open>The function mapped over \<open>imageFiles\<close> at lines 68-74.\<close>

definition encodeImage :: "ImageFile \<Rightarrow> js_error + ImagePart" where
  "encodeImage imgFile =
     (case fileToBase64 (file imgFile) of
        Inl e \<Rightarrow> Inl e
      | Inr base64Data \<Rightarrow> Inr \<lparr>mimeType = type (file imgFile), data = base64Data\<rparr>)"

text \<open>\<open>Promise.all\<close>: all results in order, or the rejection of the first that failed.\<close>

fun promiseAll :: "(js_error + 'a) list \<Rightarrow> js_error + 'a list" where
  "promiseAll [] = Inr []"
| "promiseAll (Inl e # _) = Inl e"
| "promiseAll (Inr x # rest) =
     (case promiseAll rest of Inl e \<Rightarrow> Inl e | Inr xs \<Rightarrow> Inr (x # xs))"

text \<open>
  \<open>prompt.trim()\<close>: the white space and line terminators of ECMAScript below code
  unit 256 are tab, line feed, vertical tab, form feed, carriage return, space and the
  no-break space.
\<close>

definition isWhiteSpace :: "char \<Rightarrow> bool" where
  "isWhiteSpace c = (c \<in> set [CHR 0x09, CHR 0x0A, CHR 0x0B, CHR 0x0C, CHR 0x0D, CHR 0x20, CHR 0xA0])"

definition trim :: "string \<Rightarrow> string" where
  "trim s = rev (dropWhile isWhiteSpace (rev (dropWhile isWhiteSpace s)))"

text \<open>
  \<open>handleSubmit\<close>: the validation of lines 57-60, then the encoding of every file, the
  call of \<open>synthesizeImage\<close>, and the \<open>catch\<close> and \<open>finally\<close> clauses.
\<close>

definition failed :: "js_error \<Rightarrow> App \<Rightarrow> world \<Rightarrow> App \<times> world" where
  "failed err s w =
     (s\<lparr>error := Some (GenerationFailed (template (message err))), isLoading := False\<rparr>,
      w\<lparr>console := console w @ [err]\<rparr>)"

definition handleSubmit :: "remote \<Rightarrow> App \<Rightarrow> world \<Rightarrow> App \<times> world" where
  "handleSubmit api s w =
     (if imageFiles s = [] \<or> \<not> truthy (Some (trim (prompt s))) then
        (s\<lparr>error := Some MissingInput\<rparr>, w)
      else
        (let s1 = s\<lparr>isLoading := True, error := None,
                     generatedImage := None, generatedText := None\<rparr> in
         case promiseAll (map encodeImage (imageFiles s)) of
           Inl err \<Rightarrow> failed err s1 w
         | Inr encoded \<Rightarrow>
             (case synthesizeImage api (prompt s) encoded w of
                (Inl err, w1) \<Rightarrow> failed err s1 w1
              | (Inr result, w1) \<Rightarrow>
                  (s1\<lparr>generatedImage := imageUrl result, generatedText := resultText result,
                      isLoading := False\<rparr>, w1))))"

subsection \<open>Well-formed object URLs\<close>

text \<open>
  \<open>URL.createObjectURL\<close> never returns a URL it has returned before.  With the URLs
  numbered in the order of their creation, every URL the component holds and every URL
  that was revoked is below the counter.
\<close>

definition urlsFresh :: "App \<Rightarrow> world \<Rightarrow> bool" where
  "urlsFresh s w =
     (list_all (\<lambda>imgFile. preview imgFile < next_url w) (imageFiles s) \<and>
      list_all (\<lambda>u. u < next_url w) (revoked w))"

subsection \<open>Concrete inputs\<close>

text \<open>
  A world in which nothing has happened yet, the component as it is first rendered, a
  remote call that fails, one that answers with a given list of parts, one that answers
  without candidates, and a response with two parts of each kind.
\<close>

definition emptyWorld :: world where
  "emptyWorld = \<lparr>sent = [], console = [], next_url = 0, revoked = []\<rparr>"

definition offline :: remote where
  "offline req = Inl (Error ''Failed to fetch'')"

definition twoOfEach :: "Part list" where
  "twoOfEach =
     [\<lparr>inlineData = Some \<lparr>blobMimeType = Some ''image/png'', blobData = Some ''AAAA''\<rparr>, partText = None\<rparr>,
      \<lparr>inlineData = None, partText = Some ''one''\<rparr>,
      \<lparr>inlineData = Some \<lparr>blobMimeType = Some ''image/jpeg'', blobData = Some ''BBBB''\<rparr>,
       partText = Some ''caption''\<rparr>,
      \<lparr>inlineData = None, partText = Some ''two''\<rparr>]"

definition respond :: "Part list \<Rightarrow> remote" where
  "respond ps req = Inr \<lparr>candidates = Some [\<lparr>content = Some \<lparr>parts = Some ps\<rparr>\<rparr>]\<rparr>"

definition noCandidates :: remote where
  "noCandidates req = Inr \<lparr>candidates = Some []\<rparr>"

definition initialApp :: App where
  "initialApp = \<lparr>imageFiles = [], prompt = [], generatedImage = None, generatedText = None,
                  isLoading = False, error = None\<rparr>"

text \<open>
  Three files, the last with a media type that carries a codecs list, and the component
  after the three were added.
\<close>

definition pngFile :: File where
  "pngFile = \<lparr>name = ''cat.png'', type = ''image/png'', bytes = [0x89, 0x50, 0x4E, 0x47],
              readFails = False\<rparr>"

definition jpegFile :: File where
  "jpegFile = \<lparr>name = ''sky.jpg'', type = ''image/jpeg'', bytes = [0xFF, 0xD8],
               readFails = False\<rparr>"

definition webmFile :: File where
  "webmFile = \<lparr>name = ''clip.webm'', type = ''video/webm;codecs=vp8,opus'', bytes = [0x1A, 0x45, 0xDF],
               readFails = False\<rparr>"

definition threeImages :: App where
  "threeImages = initialApp\<lparr>imageFiles :=
     [\<lparr>file = pngFile, preview = 0\<rparr>, \<lparr>file = jpegFile, preview = 1\<rparr>, \<lparr>file = webmFile, preview = 2\<rparr>]\<rparr>"

definition threeMinted :: world where
  "threeMinted = emptyWorld\<lparr>next_url := 3\<rparr>"

section \<open>Properties of the synthesis client\<close>

subsection \<open>The loop over the parts\<close>

lemma visitParts_append:
  "visitParts r (xs @ ys) = visitParts (visitParts r xs) ys"
  by (induction xs arbitrary: r) simp_all

lemma visitPart_image_kept:
  "\<not> hasInlineData q \<Longrightarrow> imageUrl (visitPart r q) = imageUrl r"
  by (simp add: visitPart_def hasInlineData_def split: option.splits)

lemma visitPart_text_kept:
  "hasInlineData q \<or> \<not> truthy (partText q) \<Longrightarrow> resultText (visitPart r q) = resultText r"
  by (auto simp: visitPart_def hasInlineData_def split: option.splits)

lemma visitParts_image_kept:
  "\<forall>q\<in>set qs. \<not> hasInlineData q \<Longrightarrow> imageUrl (visitParts r qs) = imageUrl r"
  by (induction qs arbitrary: r) (simp_all add: visitPart_image_kept)

lemma visitParts_text_kept:
  "\<forall>q\<in>set qs. hasInlineData q \<or> \<not> truthy (partText q) \<Longrightarrow>
   resultText (visitParts r qs) = resultText r"
  by (induction qs arbitrary: r) (simp_all add: visitPart_text_kept)

lemma visitPart_image_set:
  "inlineData part = Some b \<Longrightarrow> truthy (blobData b) \<Longrightarrow>
   imageUrl (visitPart r part) = Some (dataUrl b)"
  by (simp add: visitPart_def)

lemma visitPart_text_set:
  "\<not> hasInlineData part \<Longrightarrow> truthy (partText part) \<Longrightarrow>
   resultText (visitPart r part) = partText part"
  by (auto simp: visitPart_def hasInlineData_def split: option.splits)

lemma last_image_wins:
  assumes "inlineData part = Some b" "truthy (blobData b)" "\<forall>q\<in>set after. \<not> hasInlineData q"
  shows "imageUrl (visitParts r (before @ part # after)) = Some (dataUrl b)"
  using assms by (simp add: visitParts_append visitParts_image_kept visitPart_image_set)

lemma last_text_wins:
  assumes "\<not> hasInlineData part" "truthy (partText part)"
    "\<forall>q\<in>set after. hasInlineData q \<or> \<not> truthy (partText q)"
  shows "resultText (visitParts r (before @ part # after)) = partText part"
  using assms by (simp add: visitParts_append visitParts_text_kept visitPart_text_set)

lemma imageUrl_truthy:
  "imageUrl r = None \<or> truthy (imageUrl r) \<Longrightarrow>
   imageUrl (visitParts r ps) = None \<or> truthy (imageUrl (visitParts r ps))"
proof (induction ps arbitrary: r)
  case Nil then show ?case by simp
next
  case (Cons p ps)
  have "imageUrl (visitPart r p) = None \<or> truthy (imageUrl (visitPart r p))"
    using Cons.prems by (auto simp: visitPart_def dataUrl_def split: option.splits)
  then show ?case using Cons.IH by simp
qed

lemma resultText_truthy:
  "resultText r = None \<or> truthy (resultText r) \<Longrightarrow>
   resultText (visitParts r ps) = None \<or> truthy (resultText (visitParts r ps))"
proof (induction ps arbitrary: r)
  case Nil then show ?case by simp
next
  case (Cons p ps)
  have "resultText (visitPart r p) = None \<or> truthy (resultText (visitPart r p))"
    using Cons.prems by (auto simp: visitPart_def split: option.splits)
  then show ?case using Cons.IH by simp
qed

lemma synthesizeImage_parts:
  assumes "api (request p imgs) = Inr response" "candidates response = Some (c # cs)"
    "content c = Some ct" "parts ct = Some ps"
  shows "fst (synthesizeImage api p imgs w) =
     (let r = visitParts \<lparr>imageUrl = None, resultText = None\<rparr> ps in
      if \<not> truthy (imageUrl r) \<and> \<not> truthy (resultText r) then Inl (Error failureMessage)
      else Inr r)"
  using assms
  by (simp add: synthesizeImage_def generateContent_def tryBody_def readCandidates_def Let_def)

subsection \<open>Which part determines each field\<close>

text \<open>
  Claim C1, as amended.  The loop assigns on every matching part, so the last part of a
  kind decides, not the first.  For a response whose first candidate has the parts
  \<open>ps\<close>: if \<open>part\<close> carries non-empty inline data and no part after it does, then
  \<open>synthesizeImage\<close> resolves and \<open>imageUrl\<close> is exactly
  \<open>data:<mimeType>;base64,<payload>\<close> of that part; if \<open>part'\<close> carries non-empty text
  and no usable inline data, and no part after it sets the text, then \<open>synthesizeImage\<close>
  resolves and the returned text is the text of that part.
\<close>

theorem synthesize_last_part_wins:
  assumes "api (request p imgs) = Inr response" "candidates response = Some (c # cs)"
    "content c = Some ct" "parts ct = Some ps"
  shows
    "(ps = before @ part # after \<and> inlineData part = Some \<lparr>blobMimeType = m, blobData = Some d\<rparr> \<and>
        d \<noteq> [] \<and> (\<forall>q\<in>set after. \<not> hasInlineData q)
      \<longrightarrow> (\<exists>r. fst (synthesizeImage api p imgs w) = Inr r \<and>
                imageUrl r = Some (''data:'' @ template m @ '';base64,'' @ d)))
     \<and> (ps = before' @ part' # after' \<and> \<not> hasInlineData part' \<and> partText part' = Some t \<and>
        t \<noteq> [] \<and> (\<forall>q\<in>set after'. hasInlineData q \<or> \<not> truthy (partText q))
      \<longrightarrow> (\<exists>r. fst (synthesizeImage api p imgs w) = Inr r \<and> resultText r = Some t))"
proof -
  let ?r = "visitParts \<lparr>imageUrl = None, resultText = None\<rparr> ps"
  have run: "fst (synthesizeImage api p imgs w) =
      (if \<not> truthy (imageUrl ?r) \<and> \<not> truthy (resultText ?r) then Inl (Error failureMessage)
       else Inr ?r)"
    using synthesizeImage_parts [where api = api and p = p and imgs = imgs and w = w, OF assms]
    by (simp add: Let_def)
  have image: "\<exists>r. fst (synthesizeImage api p imgs w) = Inr r \<and>
        imageUrl r = Some (''data:'' @ template m @ '';base64,'' @ d)"
    if "ps = before @ part # after"
      "inlineData part = Some \<lparr>blobMimeType = m, blobData = Some d\<rparr>" "d \<noteq> []"
      "\<forall>q\<in>set after. \<not> hasInlineData q"
  proof -
    have "imageUrl ?r = Some (dataUrl \<lparr>blobMimeType = m, blobData = Some d\<rparr>)"
      unfolding that(1) by (rule last_image_wins [OF that(2) _ that(4)]) (simp add: that(3))
    then have "imageUrl ?r = Some (''data:'' @ template m @ '';base64,'' @ d)"
      by (simp add: dataUrl_def)
    then show ?thesis using run by simp
  qed
  have words: "\<exists>r. fst (synthesizeImage api p imgs w) = Inr r \<and> resultText r = Some t"
    if "ps = before' @ part' # after'" "\<not> hasInlineData part'" "partText part' = Some t"
      "t \<noteq> []" "\<forall>q\<in>set after'. hasInlineData q \<or> \<not> truthy (partText q)"
  proof -
    have "resultText ?r = partText part'"
      unfolding that(1) by (rule last_text_wins [OF that(2) _ that(5)]) (simp add: that(3,4))
    then have "resultText ?r = Some t" by (simp add: that(3))
    then show ?thesis using run that(4) by simp
  qed
  show ?thesis using image words by blast
qed

text \<open>The theorem at the response \<open>twoOfEach\<close>: the second image and the last text are returned.\<close>

theorem synthesize_last_part_wins_witness:
  "(\<exists>r. fst (synthesizeImage (respond twoOfEach) ''merge'' [] emptyWorld) = Inr r \<and>
       imageUrl r = Some ''data:image/jpeg;base64,BBBB'')
   \<and> (\<exists>r. fst (synthesizeImage (respond twoOfEach) ''merge'' [] emptyWorld) = Inr r \<and>
       resultText r = Some ''two'')"
proof -
  let ?png = "\<lparr>inlineData = Some \<lparr>blobMimeType = Some ''image/png'', blobData = Some ''AAAA''\<rparr>,
                 partText = None\<rparr>"
  let ?one = "\<lparr>inlineData = None, partText = Some ''one''\<rparr>"
  let ?jpeg = "\<lparr>inlineData = Some \<lparr>blobMimeType = Some ''image/jpeg'', blobData = Some ''BBBB''\<rparr>,
                  partText = Some ''caption''\<rparr>"
  let ?two = "\<lparr>inlineData = None, partText = Some ''two''\<rparr>"
  show ?thesis
    using synthesize_last_part_wins [where api = "respond twoOfEach" and p = "''merge''"
        and imgs = "[]" and w = emptyWorld
        and response = "\<lparr>candidates = Some [\<lparr>content = Some \<lparr>parts = Some twoOfEach\<rparr>\<rparr>]\<rparr>"
        and c = "\<lparr>content = Some \<lparr>parts = Some twoOfEach\<rparr>\<rparr>" and cs = "[]"
        and ct = "\<lparr>parts = Some twoOfEach\<rparr>" and ps = twoOfEach
        and before = "[?png, ?one]" and part = ?jpeg and after = "[?two]"
        and m = "Some ''image/jpeg''" and d = "''BBBB''"
        and before' = "[?png, ?one, ?jpeg]" and part' = ?two and after' = "[]" and t = "''two''"]
    by (simp add: respond_def twoOfEach_def hasInlineData_def)
qed

text \<open>
  Claim C1 as stated fails at \<open>twoOfEach\<close>: the first part with inline data is the PNG
  and the first part with text says \<open>one\<close>, but the result holds the JPEG and \<open>two\<close>.
\<close>

theorem first_part_wins_counterexample:
  "fst (synthesizeImage (respond twoOfEach) ''merge'' [] emptyWorld) =
     Inr \<lparr>imageUrl = Some ''data:image/jpeg;base64,BBBB'', resultText = Some ''two''\<rparr>
   \<and> fst (synthesizeImage (respond twoOfEach) ''merge'' [] emptyWorld) \<noteq>
     Inr \<lparr>imageUrl = Some ''data:image/png;base64,AAAA'', resultText = Some ''one''\<rparr>"
  by (simp add: synthesizeImage_def generateContent_def tryBody_def readCandidates_def
      respond_def twoOfEach_def visitPart_def dataUrl_def)

subsection \<open>Text of a part that carries inline data\<close>

lemma visitPart_text_erased:
  "visitPart r (if hasInlineData q then q\<lparr>partText := x\<rparr> else q) = visitPart r q"
  by (auto simp: visitPart_def hasInlineData_def split: option.splits)

lemma visitParts_text_erased:
  "visitParts r (map (\<lambda>q. if hasInlineData q then q\<lparr>partText := other q\<rparr> else q) ps) =
   visitParts r ps"
  by (induction ps arbitrary: r) (simp_all add: visitPart_text_erased)

lemma visitPart_text_source:
  "resultText (visitPart r q) = resultText r \<or>
   (\<not> hasInlineData q \<and> resultText (visitPart r q) = partText q)"
  by (auto simp: visitPart_def hasInlineData_def split: option.splits)

lemma visitParts_text_source:
  "resultText (visitParts r ps) = Some t \<Longrightarrow>
   resultText r = Some t \<or> (\<exists>q\<in>set ps. \<not> hasInlineData q \<and> partText q = Some t)"
proof (induction ps arbitrary: r)
  case Nil
  then show ?case by simp
next
  case (Cons q ps)
  from Cons.prems have "resultText (visitParts (visitPart r q) ps) = Some t" by simp
  from Cons.IH [OF this] show ?case
    using visitPart_text_source [of r q] by auto
qed

text \<open>
  Claim C10.  The text branch of the loop is the \<open>else\<close> of the inline-data test, so a
  part with non-empty inline data never sets the text.  For a response whose first
  candidate has the parts \<open>ps\<close>: a response that differs only in the text fields of the
  parts with non-empty inline data gives the same outcome, and a returned text is the text
  of a part of \<open>ps\<close> without usable inline data.
\<close>

theorem inline_part_text_ignored:
  assumes "api (request p imgs) = Inr response" "candidates response = Some (c # cs)"
    "content c = Some ct" "parts ct = Some ps"
    and "api' (request p imgs) = Inr response'" "candidates response' = Some (c' # cs')"
    "content c' = Some ct'"
    "parts ct' = Some (map (\<lambda>q. if hasInlineData q then q\<lparr>partText := other q\<rparr> else q) ps)"
  shows "fst (synthesizeImage api' p imgs w) = fst (synthesizeImage api p imgs w)
    \<and> (\<forall>res t. fst (synthesizeImage api p imgs w) = Inr res \<and> resultText res = Some t
          \<longrightarrow> (\<exists>q\<in>set ps. \<not> hasInlineData q \<and> partText q = Some t))"
proof -
  let ?r = "visitParts \<lparr>imageUrl = None, resultText = None\<rparr> ps"
  have run: "fst (synthesizeImage api p imgs w) =
      (if \<not> truthy (imageUrl ?r) \<and> \<not> truthy (resultText ?r) then Inl (Error failureMessage)
       else Inr ?r)"
    using synthesizeImage_parts [where api = api and p = p and imgs = imgs and w = w, OF assms(1-4)]
    by (simp add: Let_def)
  have run': "fst (synthesizeImage api' p imgs w) =
      (if \<not> truthy (imageUrl ?r) \<and> \<not> truthy (resultText ?r) then Inl (Error failureMessage)
       else Inr ?r)"
    using synthesizeImage_parts [where api = api' and p = p and imgs = imgs and w = w, OF assms(5-8)]
    by (simp add: Let_def visitParts_text_erased)
  have source: "\<exists>q\<in>set ps. \<not> hasInlineData q \<and> partText q = Some t"
    if "fst (synthesizeImage api p imgs w) = Inr res" "resultText res = Some t" for res t
  proof -
    from that(1) run have "res = ?r" by (simp split: if_splits)
    with that(2) have "resultText ?r = Some t" by simp
    from visitParts_text_source [OF this] show ?thesis by simp
  qed
  show ?thesis using run run' source by simp
qed

text \<open>
  The theorem at \<open>twoOfEach\<close>, whose JPEG part carries the text \<open>caption\<close>: without
  that text the outcome is the same, and the text returned is that of the last part.
\<close>

theorem inline_part_text_ignored_witness:
  "fst (synthesizeImage (respond (map (\<lambda>q. if hasInlineData q then q\<lparr>partText := None\<rparr> else q) twoOfEach))
         ''merge'' [] emptyWorld) =
   fst (synthesizeImage (respond twoOfEach) ''merge'' [] emptyWorld)
   \<and> fst (synthesizeImage (respond twoOfEach) ''merge'' [] emptyWorld) =
       Inr \<lparr>imageUrl = Some ''data:image/jpeg;base64,BBBB'', resultText = Some ''two''\<rparr>"
proof -
  let ?erased = "map (\<lambda>q. if hasInlineData q then q\<lparr>partText := None\<rparr> else q) twoOfEach"
  have given: "respond twoOfEach (request ''merge'' []) =
      Inr \<lparr>candidates = Some [\<lparr>content = Some \<lparr>parts = Some twoOfEach\<rparr>\<rparr>]\<rparr>"
    by (simp add: respond_def)
  have erased: "respond ?erased (request ''merge'' []) =
      Inr \<lparr>candidates = Some [\<lparr>content = Some \<lparr>parts = Some ?erased\<rparr>\<rparr>]\<rparr>"
    by (simp add: respond_def)
  have "fst (synthesizeImage (respond ?erased) ''merge'' [] emptyWorld) =
      fst (synthesizeImage (respond twoOfEach) ''merge'' [] emptyWorld)
    \<and> (\<forall>res t. fst (synthesizeImage (respond twoOfEach) ''merge'' [] emptyWorld) = Inr res \<and>
          resultText res = Some t
         \<longrightarrow> (\<exists>q\<in>set twoOfEach. \<not> hasInlineData q \<and> partText q = Some t))"
    by (rule inline_part_text_ignored [where api = "respond twoOfEach" and api' = "respond ?erased"
          and other = "\<lambda>q. None" and ct = "\<lparr>parts = Some twoOfEach\<rparr>"
          and ct' = "\<lparr>parts = Some ?erased\<rparr>"
          and c = "\<lparr>content = Some \<lparr>parts = Some twoOfEach\<rparr>\<rparr>" and cs = "[]"
          and c' = "\<lparr>content = Some \<lparr>parts = Some ?erased\<rparr>\<rparr>" and cs' = "[]",
          OF given _ _ _ erased]) simp_all
  moreover have "fst (synthesizeImage (respond twoOfEach) ''merge'' [] emptyWorld) =
      Inr \<lparr>imageUrl = Some ''data:image/jpeg;base64,BBBB'', resultText = Some ''two''\<rparr>"
    by (simp add: synthesizeImage_def generateContent_def tryBody_def readCandidates_def
        respond_def twoOfEach_def visitPart_def dataUrl_def)
  ultimately show ?thesis by simp
qed

subsection \<open>Rejections\<close>

lemma synthesizeImage_rejection:
  "fst (synthesizeImage api p imgs w) = Inl e \<Longrightarrow> e = Error failureMessage"
  by (auto simp: synthesizeImage_def generateContent_def split: sum.splits prod.splits)

text \<open>
  Claim C2 does not hold of the code.  Line 71 throws the no-content error inside the
  \<open>try\<close> block, so the \<open>catch\<close> clause of lines 76-79 catches it like a failure of
  the remote call and throws the same \<open>Error\<close> for both: any two rejections of
  \<open>synthesizeImage\<close> carry the same error, with the fixed failure message.
\<close>

theorem every_rejection_has_failure_message:
  "fst (synthesizeImage api p imgs w) = Inl e \<and> fst (synthesizeImage api' p' imgs' w') = Inl e'
   \<longrightarrow> e = Error failureMessage \<and> e' = e"
  using synthesizeImage_rejection [of api p imgs w e]
    synthesizeImage_rejection [of api' p' imgs' w' e']
  by auto

text \<open>The theorem at a failed remote call and at a response without candidates.\<close>

theorem every_rejection_has_failure_message_witness:
  "fst (synthesizeImage offline ''merge'' [] emptyWorld) = Inl (Error failureMessage)
   \<and> fst (synthesizeImage noCandidates ''merge'' [] emptyWorld) = Inl (Error failureMessage)
   \<and> Error failureMessage = Error failureMessage"
  using every_rejection_has_failure_message [of offline "''merge''" "[]" emptyWorld
      "Error failureMessage" noCandidates "''merge''" "[]" emptyWorld "Error failureMessage"]
  by (simp add: synthesizeImage_def generateContent_def tryBody_def readCandidates_def
      offline_def noCandidates_def)

lemma messages_differ: "failureMessage \<noteq> noContentMessage"
  by (simp add: failureMessage_def noContentMessage_def)

text \<open>
  Claim C4 at a response with no candidates and at a first candidate with no parts:
  \<open>synthesizeImage\<close> rejects, but with the failure message of the \<open>catch\<close> clause;
  the no-content error only reaches the console.
\<close>

theorem no_content_error_is_replaced:
  "synthesizeImage noCandidates p imgs w =
     (Inl (Error failureMessage),
      w\<lparr>sent := sent w @ [request p imgs], console := console w @ [Error noContentMessage]\<rparr>)
   \<and> synthesizeImage (respond []) p imgs w =
     (Inl (Error failureMessage),
      w\<lparr>sent := sent w @ [request p imgs], console := console w @ [Error noContentMessage]\<rparr>)
   \<and> Error failureMessage \<noteq> Error noContentMessage"
  by (simp add: synthesizeImage_def generateContent_def tryBody_def readCandidates_def
      noCandidates_def respond_def messages_differ)

text \<open>
  The rest of claim C4 holds: a resolved result has a field set, and a response without
  candidates or without a usable part in its first candidate is rejected.
\<close>

lemma synthesizeImage_result_not_empty:
  "fst (synthesizeImage api p imgs w) = Inr r \<Longrightarrow> imageUrl r \<noteq> None \<or> resultText r \<noteq> None"
  by (auto simp: synthesizeImage_def generateContent_def tryBody_def
      split: sum.splits prod.splits if_splits)

lemma synthesizeImage_rejects_empty:
  assumes "api (request p imgs) = Inr response"
    and "candidates response = None \<or> candidates response = Some [] \<or>
      (\<exists>c cs ct ps. candidates response = Some (c # cs) \<and> content c = Some ct \<and>
         parts ct = Some ps \<and> (\<forall>q\<in>set ps. \<not> hasInlineData q \<and> \<not> truthy (partText q)))"
  shows "fst (synthesizeImage api p imgs w) = Inl (Error failureMessage)"
proof -
  have none: "visitParts r ps = r"
    if "\<forall>q\<in>set ps. \<not> hasInlineData q \<and> \<not> truthy (partText q)" for r ps
    using that
    by (induction ps arbitrary: r)
      (auto simp: visitPart_def hasInlineData_def split: option.splits)
  from assms(2) show ?thesis
    using assms(1) none
    by (auto simp: synthesizeImage_def generateContent_def tryBody_def readCandidates_def)
qed

subsection \<open>The request\<close>

lemma synthesizeImage_sent:
  "sent (snd (synthesizeImage api p imgs w)) = sent w @ [request p imgs]"
  by (simp add: synthesizeImage_def generateContent_def split: sum.splits)

text \<open>
  Claim C5.  \<open>synthesizeImage\<close> sends exactly one request, and its parts are one part
  per image, in the order of the images, each with the media type and the payload of its
  image, followed by one text part with the prompt.
\<close>

theorem request_parts_in_order:
  "sent (snd (synthesizeImage api p imgs w)) = sent w @ [request p imgs]
   \<and> length (contents (request p imgs)) = length imgs + 1
   \<and> (\<forall>i<length imgs.
         contents (request p imgs) ! i =
           \<lparr>inlineData = Some \<lparr>blobMimeType = Some (mimeType (imgs ! i)), blobData = data (imgs ! i)\<rparr>,
            partText = None\<rparr>)
   \<and> contents (request p imgs) ! length imgs = \<lparr>inlineData = None, partText = Some p\<rparr>"
  by (simp add: synthesizeImage_sent request_def imageParts_def textPart_def nth_append)

text \<open>The theorem at two images: the second part and the text part after it.\<close>

theorem request_parts_in_order_witness:
  "contents (request ''merge'' [\<lparr>mimeType = ''image/png'', data = Some ''AAAA''\<rparr>,
                                \<lparr>mimeType = ''image/jpeg'', data = Some ''BBBB''\<rparr>]) ! 1 =
     \<lparr>inlineData = Some \<lparr>blobMimeType = Some ''image/jpeg'', blobData = Some ''BBBB''\<rparr>,
      partText = None\<rparr>
   \<and> contents (request ''merge'' [\<lparr>mimeType = ''image/png'', data = Some ''AAAA''\<rparr>,
                                \<lparr>mimeType = ''image/jpeg'', data = Some ''BBBB''\<rparr>]) ! 2 =
     \<lparr>inlineData = None, partText = Some ''merge''\<rparr>"
  using request_parts_in_order [of offline "''merge''"
      "[\<lparr>mimeType = ''image/png'', data = Some ''AAAA''\<rparr>, \<lparr>mimeType = ''image/jpeg'', data = Some ''BBBB''\<rparr>]"
      emptyWorld]
  by (simp add: request_def imageParts_def textPart_def)

section \<open>Properties of the image intake\<close>

subsection \<open>Validation before submission\<close>

lemma dropWhile_all: "\<forall>c\<in>set s. P c \<Longrightarrow> dropWhile P s = []"
  by (induction s) simp_all

lemma trim_blank: "\<forall>c\<in>set s. isWhiteSpace c \<Longrightarrow> trim s = []"
  by (simp add: trim_def dropWhile_all)

text \<open>
  Claim C3, as amended.  The validation is in the caller: with no image or with a prompt
  of white space only, \<open>handleSubmit\<close> stores the validation message and returns; it
  does not call \<open>synthesizeImage\<close>, and the world, with its list of sent requests, is
  unchanged.
\<close>

theorem handleSubmit_validates:
  "imageFiles s = [] \<or> (\<forall>c\<in>set (prompt s). isWhiteSpace c) \<Longrightarrow>
   handleSubmit api s w = (s\<lparr>error := Some MissingInput\<rparr>, w)"
  using trim_blank [of "prompt s"] by (auto simp: handleSubmit_def)

text \<open>The theorem at the component as first rendered: no image and an empty prompt.\<close>

theorem handleSubmit_validates_witness:
  "handleSubmit offline initialApp emptyWorld = (initialApp\<lparr>error := Some MissingInput\<rparr>, emptyWorld)
   \<and> sent (snd (handleSubmit offline initialApp emptyWorld)) = []"
  using handleSubmit_validates [of initialApp offline emptyWorld]
  by (simp add: initialApp_def emptyWorld_def)

text \<open>
  Claim C3 as stated fails: \<open>synthesizeImage\<close> has no check of its own.  With an
  empty prompt and no image it sends a request whose only part is the empty text, and
  when the remote call answers with content it resolves.
\<close>

theorem synthesizeImage_sends_blank_request:
  "sent emptyWorld = []
   \<and> sent (snd (synthesizeImage offline [] [] emptyWorld)) =
     [\<lparr>model = ''gemini-2.5-flash-image-preview'',
       contents = [\<lparr>inlineData = None, partText = Some []\<rparr>],
       responseModalities = [IMAGE, TEXT]\<rparr>]
   \<and> synthesizeImage (respond twoOfEach) [] [] emptyWorld =
     (Inr \<lparr>imageUrl = Some ''data:image/jpeg;base64,BBBB'', resultText = Some ''two''\<rparr>,
      emptyWorld\<lparr>sent :=
        [\<lparr>model = ''gemini-2.5-flash-image-preview'',
          contents = [\<lparr>inlineData = None, partText = Some []\<rparr>],
          responseModalities = [IMAGE, TEXT]\<rparr>]\<rparr>)"
  by (simp add: synthesizeImage_def generateContent_def tryBody_def readCandidates_def
      offline_def respond_def twoOfEach_def visitPart_def dataUrl_def emptyWorld_def
      request_def imageParts_def textPart_def)

subsection \<open>Removing one image\<close>

text \<open>
  Claim C7.  For an index inside the list, \<open>removeImage\<close> throws nothing, revokes the
  preview of the entry at the index and nothing else, and stores the list without that
  entry: the entries before the index stay where they are, the entries after it move
  down by one, and no other field of the component or of the world changes.
\<close>

theorem removeImage_in_range:
  assumes "0 \<le> i" "i < int (length (imageFiles s))" "removeImage i s w = (thrown, s', w')"
  shows "thrown = None
    \<and> w' = w\<lparr>revoked := revoked w @ [preview (imageFiles s ! nat i)]\<rparr>
    \<and> s' = s\<lparr>imageFiles := imageFiles s'\<rparr>
    \<and> length (imageFiles s') = length (imageFiles s) - 1
    \<and> (\<forall>j<nat i. imageFiles s' ! j = imageFiles s ! j)
    \<and> (\<forall>j. nat i \<le> j \<and> j < length (imageFiles s') \<longrightarrow> imageFiles s' ! j = imageFiles s ! Suc j)"
proof -
  let ?xs = "imageFiles s" and ?n = "nat i"
  have n: "?n < length ?xs" using assms(1,2) by simp
  have run: "thrown = None" "w' = revokeObjectURL (preview (?xs ! ?n)) w"
    "s' = s\<lparr>imageFiles := take ?n ?xs @ drop (Suc ?n) ?xs\<rparr>"
    using assms by (simp_all add: removeImage_def Let_def)
  have files: "imageFiles s' = take ?n ?xs @ drop (Suc ?n) ?xs"
    using run(3) by simp
  have len: "length (imageFiles s') = length ?xs - 1"
    using n by (simp add: files)
  have before: "imageFiles s' ! j = ?xs ! j" if "j < ?n" for j
    using that n by (simp add: files nth_append)
  have after: "imageFiles s' ! j = ?xs ! Suc j" if "?n \<le> j" "j < length (imageFiles s')" for j
  proof -
    have "(take ?n ?xs @ drop (Suc ?n) ?xs) ! j = drop (Suc ?n) ?xs ! (j - ?n)"
      using that n by (simp add: nth_append)
    also have "\<dots> = ?xs ! (Suc ?n + (j - ?n))"
      using that n len by (simp add: files)
    also have "Suc ?n + (j - ?n) = Suc j" using that by simp
    finally show ?thesis by (simp add: files)
  qed
  have frame: "s' = s\<lparr>imageFiles := imageFiles s'\<rparr>"
    by (subst (1 2) run(3)) simp
  have log: "w' = w\<lparr>revoked := revoked w @ [preview (?xs ! ?n)]\<rparr>"
    using run(2) by (simp add: revokeObjectURL_def)
  from run(1) log frame len before after show ?thesis
    by blast
qed

text \<open>The theorem at the middle one of three images.\<close>

theorem removeImage_in_range_witness:
  "removeImage 1 threeImages threeMinted =
     (None,
      threeImages\<lparr>imageFiles := [\<lparr>file = pngFile, preview = 0\<rparr>, \<lparr>file = webmFile, preview = 2\<rparr>]\<rparr>,
      threeMinted\<lparr>revoked := [1]\<rparr>)"
  using removeImage_in_range [of 1 threeImages threeMinted
      "fst (removeImage 1 threeImages threeMinted)"
      "fst (snd (removeImage 1 threeImages threeMinted))"
      "snd (snd (removeImage 1 threeImages threeMinted))"]
  by (simp add: removeImage_def threeImages_def threeMinted_def initialApp_def emptyWorld_def
      revokeObjectURL_def)

text \<open>
  Claim C9.  For an index outside the list, \<open>removeImage\<close> ends with a thrown error
  (the \<open>TypeError\<close> of reading \<open>preview\<close> of \<open>undefined\<close>); nothing is revoked, no
  entry is removed, and the component and the world are as before.
\<close>

theorem removeImage_out_of_range:
  "index < 0 \<or> int (length (imageFiles s)) \<le> index \<Longrightarrow>
   \<exists>e. removeImage index s w = (Some e, s, w)"
  by (auto simp: removeImage_def)

text \<open>The theorem at the index past the end and at a negative index.\<close>

theorem removeImage_out_of_range_witness:
  "(\<exists>e. removeImage 3 threeImages threeMinted = (Some e, threeImages, threeMinted))
   \<and> (\<exists>e. removeImage (- 1) threeImages threeMinted = (Some e, threeImages, threeMinted))"
  using removeImage_out_of_range [of 3 threeImages threeMinted]
    removeImage_out_of_range [of "- 1" threeImages threeMinted]
  by (simp add: threeImages_def)

subsection \<open>Adding files and clearing\<close>

lemma filePreviews_eq:
  "filePreviews fs w =
     (map (\<lambda>(f, u). \<lparr>file = f, preview = u\<rparr>) (zip fs [next_url w..<next_url w + length fs]),
      w\<lparr>next_url := next_url w + length fs\<rparr>)"
proof (induction fs arbitrary: w)
  case Nil
  then show ?case by simp
next
  case (Cons f fs)
  have "[next_url w..<next_url w + length (f # fs)] =
      next_url w # [Suc (next_url w)..<next_url w + length (f # fs)]"
    by (rule upt_conv_Cons) simp
  then have "[next_url w..<next_url w + length (f # fs)] =
      next_url w # [Suc (next_url w)..<Suc (next_url w) + length fs]"
    by simp
  then show ?case
    by (simp add: Cons.IH createObjectURL_def del: upt_Suc)
qed

lemma filePreviews_previews:
  "map preview (fst (filePreviews fs w)) = [next_url w..<next_url w + length fs]"
  by (simp add: filePreviews_eq comp_def case_prod_unfold)

lemma filePreviews_files: "map file (fst (filePreviews fs w)) = fs"
  by (simp add: filePreviews_eq comp_def case_prod_unfold)

lemma filePreviews_world:
  "snd (filePreviews fs w) = w\<lparr>next_url := next_url w + length fs\<rparr>"
  by (simp add: filePreviews_eq)

lemma revoke_all:
  "fold (\<lambda>imgFile. revokeObjectURL (preview imgFile)) xs w = w\<lparr>revoked := revoked w @ map preview xs\<rparr>"
  by (induction xs arbitrary: w) (simp_all add: revokeObjectURL_def)

lemma count_list_absent: "x \<notin> set xs \<Longrightarrow> count_list xs x = 0"
  by (induction xs) auto

lemma count_list_distinct: "distinct xs \<Longrightarrow> x \<in> set xs \<Longrightarrow> count_list xs x = 1"
  by (induction xs) (auto simp: count_list_absent)

text \<open>
  Claim C8.  From a state with well-formed object URLs, \<open>handleFileChange\<close> on a
  selection \<open>fs\<close> followed by \<open>clearAllImages\<close> leaves no image; the entries added are
  those of \<open>fs\<close> in order, with distinct previews; the clearing revokes the previews
  of the list it finds, in order; and the preview of every added entry occurs exactly
  once in the log of revocations.
\<close>

theorem add_then_clear_releases_once:
  assumes "urlsFresh s w" "handleFileChange (Some fs) s w = (s1, w1)"
    "clearAllImages s1 w1 = (s2, w2)"
  shows "imageFiles s2 = []
    \<and> map file (drop (length (imageFiles s)) (imageFiles s1)) = fs
    \<and> distinct (map preview (drop (length (imageFiles s)) (imageFiles s1)))
    \<and> revoked w2 = revoked w @ map preview (imageFiles s1)
    \<and> (\<forall>imgFile\<in>set (drop (length (imageFiles s)) (imageFiles s1)).
          count_list (revoked w2) (preview imgFile) = 1)"
proof -
  let ?new = "fst (filePreviews fs w)"
  let ?minted = "[next_url w..<next_url w + length fs]"
  have s1: "imageFiles s1 = imageFiles s @ ?new" and w1: "w1 = snd (filePreviews fs w)"
    using assms(2) by (auto simp: handleFileChange_def split: prod.splits)
  have added: "drop (length (imageFiles s)) (imageFiles s1) = ?new"
    by (simp add: s1)
  have cleared: "imageFiles s2 = []"
    and w2: "w2 = w1\<lparr>revoked := revoked w1 @ map preview (imageFiles s1)\<rparr>"
    using assms(3) by (auto simp: clearAllImages_def revoke_all)
  have log: "revoked w2 = revoked w @ map preview (imageFiles s) @ ?minted"
    by (simp add: w2 w1 s1 filePreviews_world filePreviews_previews)
  have old: "\<forall>u\<in>set (revoked w @ map preview (imageFiles s)). u < next_url w"
    using assms(1) by (auto simp: urlsFresh_def list_all_iff)
  have once: "count_list (revoked w2) u = 1" if "u \<in> set ?minted" for u
  proof -
    have "u \<notin> set (revoked w @ map preview (imageFiles s))"
    proof
      assume "u \<in> set (revoked w @ map preview (imageFiles s))"
      with old have "u < next_url w" by blast
      with that show False by simp
    qed
    then have "count_list (revoked w @ map preview (imageFiles s)) u = 0"
      by (rule count_list_absent)
    moreover have "count_list ?minted u = 1"
      using that by (intro count_list_distinct) simp_all
    ultimately show ?thesis
      by (simp add: log)
  qed
  have "\<forall>imgFile\<in>set ?new. count_list (revoked w2) (preview imgFile) = 1"
  proof
    fix imgFile assume "imgFile \<in> set ?new"
    then have "preview imgFile \<in> set (map preview ?new)" by simp
    then have "preview imgFile \<in> set ?minted" by (simp only: filePreviews_previews)
    then show "count_list (revoked w2) (preview imgFile) = 1" by (rule once)
  qed
  moreover have "distinct (map preview ?new)"
    by (simp only: filePreviews_previews) simp
  moreover have "revoked w2 = revoked w @ map preview (imageFiles s1)"
    by (simp add: log s1 filePreviews_previews)
  ultimately show ?thesis
    using cleared by (simp add: added filePreviews_files)
qed

text \<open>The theorem at two files added to the three images.\<close>

theorem add_then_clear_releases_once_witness:
  "urlsFresh threeImages threeMinted
   \<and> imageFiles (fst (clearAllImages (fst (handleFileChange (Some [pngFile, jpegFile]) threeImages threeMinted))
                          (snd (handleFileChange (Some [pngFile, jpegFile]) threeImages threeMinted)))) = []
   \<and> revoked (snd (clearAllImages (fst (handleFileChange (Some [pngFile, jpegFile]) threeImages threeMinted))
                          (snd (handleFileChange (Some [pngFile, jpegFile]) threeImages threeMinted)))) =
       [0, 1, 2, 3, 4]"
proof -
  let ?added = "handleFileChange (Some [pngFile, jpegFile]) threeImages threeMinted"
  let ?cleared = "clearAllImages (fst ?added) (snd ?added)"
  have fresh: "urlsFresh threeImages threeMinted"
    by (simp add: urlsFresh_def threeImages_def threeMinted_def emptyWorld_def)
  have previews: "map preview (imageFiles (fst ?added)) = [0, 1, 2, 3, 4]"
    by (simp add: handleFileChange_def createObjectURL_def threeImages_def threeMinted_def
        emptyWorld_def)
  have "revoked threeMinted = []"
    by (simp add: threeMinted_def emptyWorld_def)
  with add_then_clear_releases_once [OF fresh, of "[pngFile, jpegFile]" "fst ?added" "snd ?added"
      "fst ?cleared" "snd ?cleared"] previews fresh
  show ?thesis by simp
qed

text \<open>
  Well-formedness of the object URLs holds when the component is first rendered, and
  every handler keeps it.
\<close>

lemma urlsFresh_initial: "urlsFresh initialApp emptyWorld"
  by (simp add: urlsFresh_def initialApp_def emptyWorld_def)

lemma urlsFresh_handleFileChange:
  assumes "urlsFresh s w"
  shows "urlsFresh (fst (handleFileChange files s w)) (snd (handleFileChange files s w))"
proof (cases files)
  case None
  then show ?thesis using assms by (simp add: handleFileChange_def)
next
  case (Some fs)
  have "\<forall>u\<in>set (map preview (fst (filePreviews fs w))). u < next_url w + length fs"
    by (simp only: filePreviews_previews) simp
  then have new: "\<forall>imgFile\<in>set (fst (filePreviews fs w)). preview imgFile < next_url w + length fs"
    by simp
  show ?thesis
    using assms new
    by (auto simp: Some handleFileChange_def urlsFresh_def list_all_iff filePreviews_world
        case_prod_unfold)
qed

lemma urlsFresh_removeImage:
  assumes "urlsFresh s w"
  shows "urlsFresh (fst (snd (removeImage i s w))) (snd (snd (removeImage i s w)))"
proof (cases "0 \<le> i \<and> i < int (length (imageFiles s))")
  case True
  then have "nat i < length (imageFiles s)" by linarith
  then have "imageFiles s ! nat i \<in> set (imageFiles s)" by simp
  moreover have "set (take (nat i) (imageFiles s) @ drop (Suc (nat i)) (imageFiles s))
      \<subseteq> set (imageFiles s)"
    using set_take_subset set_drop_subset by fastforce
  ultimately show ?thesis
    using assms True
    by (auto simp: removeImage_def urlsFresh_def list_all_iff revokeObjectURL_def Let_def)
next
  case False
  then show ?thesis using assms by (auto simp: removeImage_def)
qed

lemma urlsFresh_clearAllImages:
  assumes "urlsFresh s w"
  shows "urlsFresh (fst (clearAllImages s w)) (snd (clearAllImages s w))"
  using assms by (auto simp: clearAllImages_def revoke_all urlsFresh_def list_all_iff)

lemma synthesizeImage_urls:
  "synthesizeImage api p imgs w = (outcome, w') \<Longrightarrow>
   next_url w' = next_url w \<and> revoked w' = revoked w"
  by (auto simp: synthesizeImage_def generateContent_def split: sum.splits)

lemma urlsFresh_handleSubmit:
  assumes "urlsFresh s w"
  shows "urlsFresh (fst (handleSubmit api s w)) (snd (handleSubmit api s w))"
proof -
  have "imageFiles (fst (handleSubmit api s w)) = imageFiles s"
    by (simp add: handleSubmit_def failed_def Let_def split: sum.splits prod.splits)
  moreover have "next_url (snd (handleSubmit api s w)) = next_url w"
    "revoked (snd (handleSubmit api s w)) = revoked w"
    by (auto simp: handleSubmit_def failed_def Let_def split: sum.splits prod.splits
        dest: synthesizeImage_urls)
  ultimately show ?thesis
    using assms by (simp add: urlsFresh_def)
qed

subsection \<open>Encoding a file\<close>

lemma distinct_alphabet: "distinct alphabet" by (simp add: alphabet_def)
lemma length_alphabet: "length alphabet = 64" by (simp add: alphabet_def)

lemma position_nth: "distinct xs \<Longrightarrow> n < length xs \<Longrightarrow> position (xs ! n) xs = Some n"
proof (induction xs arbitrary: n)
  case Nil then show ?case by simp
next
  case (Cons x xs)
  show ?case
  proof (cases n)
    case 0 then show ?thesis by simp
  next
    case (Suc m)
    with Cons.prems have "xs ! m \<in> set xs" "x \<notin> set xs" by auto
    then have "xs ! m \<noteq> x" by auto
    with Suc Cons show ?thesis by auto
  qed
qed

lemma charSextet_sextetChar: "n < 64 \<Longrightarrow> charSextet (sextetChar n) = Some n"
  unfolding charSextet_def sextetChar_def
  using position_nth [OF distinct_alphabet, of n] by (simp add: length_alphabet)

lemma sextetChar_in: "sextetChar n \<in> set alphabet"
  unfolding sextetChar_def by (simp add: length_alphabet)

lemma eq_notin: "CHR ''='' \<notin> set alphabet" by (simp add: alphabet_def)
lemma comma_notin: "CHR '','' \<notin> set alphabet" by (simp add: alphabet_def)

lemma sextetChar_neq: "sextetChar n \<noteq> CHR ''=''" "sextetChar n \<noteq> CHR '',''"
  using sextetChar_in [of n] eq_notin comma_notin by auto

lemma sextet_bounds:
  fixes a b c :: nat
  assumes "a < 256" "b < 256" "c < 256"
  shows "a div 4 < 64" "(a mod 4) * 16 < 64" "(a mod 4) * 16 + b div 16 < 64"
    "(b mod 16) * 4 < 64" "(b mod 16) * 4 + c div 64 < 64" "c mod 64 < 64"
proof -
  have m4: "a mod 4 < 4" and m16: "b mod 16 < 16" by simp_all
  have d16: "b div 16 < 16" and d64: "c div 64 < 4" and d4: "a div 4 < 64"
    using assms by (simp_all add: less_mult_imp_div_less)
  show "a div 4 < 64" by (rule d4)
  show "(a mod 4) * 16 < 64" using m4 by linarith
  show "(a mod 4) * 16 + b div 16 < 64" using m4 d16 by linarith
  show "(b mod 16) * 4 < 64" using m16 by linarith
  show "(b mod 16) * 4 + c div 64 < 64" using m16 d64 by linarith
  show "c mod 64 < 64" by simp
qed

lemma regroup:
  fixes a b c :: nat
  assumes "a < 256" "b < 256" "c < 256"
  shows "a div 4 * 4 + ((a mod 4) * 16) div 16 = a"
    "a div 4 * 4 + ((a mod 4) * 16 + b div 16) div 16 = a"
    "(((a mod 4) * 16 + b div 16) mod 16) * 16 + ((b mod 16) * 4) div 4 = b"
    "(((a mod 4) * 16 + b div 16) mod 16) * 16 + ((b mod 16) * 4 + c div 64) div 4 = b"
    "(((b mod 16) * 4 + c div 64) mod 4) * 64 + c mod 64 = c"
proof -
  have d16: "b div 16 < 16" and d64: "c div 64 < 4"
    using assms by (simp_all add: less_mult_imp_div_less)
  show "a div 4 * 4 + ((a mod 4) * 16) div 16 = a" by simp
  show "a div 4 * 4 + ((a mod 4) * 16 + b div 16) div 16 = a" using d16 by simp
  show "(((a mod 4) * 16 + b div 16) mod 16) * 16 + ((b mod 16) * 4) div 4 = b"
    using d16 by simp
  show "(((a mod 4) * 16 + b div 16) mod 16) * 16 + ((b mod 16) * 4 + c div 64) div 4 = b"
    using d16 d64 by simp
  show "(((b mod 16) * 4 + c div 64) mod 4) * 64 + c mod 64 = c"
    using d64 by simp
qed

lemma decode_encode_groups:
  "\<forall>b\<in>set bs. b < 256 \<Longrightarrow> decodeGroups (encodeGroups bs) = Some bs"
proof (induction bs rule: encodeGroups.induct)
  case 1
  then show ?case by simp
next
  case (2 a)
  then have a: "a < 256" by simp
  show ?case
    using sextet_bounds(1,2) [OF a a a] regroup(1) [OF a a a]
    by (simp add: charSextet_sextetChar)
next
  case (3 a b)
  then have a: "a < 256" and b: "b < 256" by simp_all
  show ?case
    using sextet_bounds(1,3,4) [OF a b b] regroup(2,3) [OF a b b]
    by (simp add: charSextet_sextetChar sextetChar_neq)
next
  case (4 a b c rest)
  then have a: "a < 256" and b: "b < 256" and c: "c < 256" by simp_all
  from 4 have IH: "decodeGroups (encodeGroups rest) = Some rest" by simp
  show ?case
    using sextet_bounds(1,3,5,6) [OF a b c] regroup(2,4,5) [OF a b c] IH
    by (simp add: charSextet_sextetChar sextetChar_neq)
qed

lemma base64_roundtrip: "base64Decode (base64 bs) = Some bs"
proof -
  have "unat b < 256" for b :: byte
    using unsigned_less [of b] by simp
  then have "\<forall>b\<in>set (map unat bs). b < 256"
    by simp
  then have "decodeGroups (encodeGroups (map unat bs)) = Some (map unat bs)"
    by (rule decode_encode_groups)
  then show ?thesis
    by (simp add: base64Decode_def base64_def comp_def)
qed

lemma set_encodeGroups: "set (encodeGroups bs) \<subseteq> insert (CHR ''='') (set alphabet)"
  by (induction bs rule: encodeGroups.induct) (simp_all add: sextetChar_in)

lemma base64_no_comma: "CHR '','' \<notin> set (base64 bs)"
proof -
  have "CHR '','' \<notin> insert (CHR ''='') (set alphabet)"
    by (simp add: alphabet_def)
  then show ?thesis
    unfolding base64_def using set_encodeGroups [of "map unat bs"] by blast
qed

lemma jsSplit_no_separator: "sep \<notin> set s \<Longrightarrow> jsSplit sep s = [s]"
  by (induction s) auto

lemma jsSplit_at_separator:
  "sep \<notin> set a \<Longrightarrow> jsSplit sep (a @ sep # b) = a # jsSplit sep b"
  by (induction a) auto

lemma dataUrl_split:
  assumes "CHR '','' \<notin> set t"
  shows "jsSplit (CHR '','') (''data:'' @ t @ '';base64,'' @ base64 bs) =
    [''data:'' @ t @ '';base64'', base64 bs]"
proof -
  have "CHR '','' \<notin> set (''data:'' @ t @ '';base64'')"
    using assms by simp
  then have "jsSplit (CHR '','') ((''data:'' @ t @ '';base64'') @ CHR '','' # base64 bs) =
      (''data:'' @ t @ '';base64'') # jsSplit (CHR '','') (base64 bs)"
    by (rule jsSplit_at_separator)
  then show ?thesis
    by (simp add: jsSplit_no_separator [OF base64_no_comma])
qed


text \<open>
  The rest of claim C6 holds: for a file that is read without failure and whose declared
  type contains no comma, the payload paired with the file decodes to the bytes of the
  file, and the media type paired with it is the declared type.
\<close>

lemma encodeImage_round_trip:
  assumes "\<not> readFails (file imgFile)" "CHR '','' \<notin> set (type (file imgFile))"
  shows "\<exists>payload. encodeImage imgFile = Inr \<lparr>mimeType = type (file imgFile), data = Some payload\<rparr>
      \<and> base64Decode payload = Some (bytes (file imgFile))"
  using assms dataUrl_split [OF assms(2), of "bytes (file imgFile)"]
  by (simp add: encodeImage_def fileToBase64_def readAsDataURL_def base64_roundtrip)

text \<open>The lemma at a PNG file of four bytes.\<close>

lemma encodeImage_round_trip_png:
  "encodeImage \<lparr>file = pngFile, preview = 0\<rparr> = Inr \<lparr>mimeType = ''image/png'', data = Some ''iVBORw==''\<rparr>
   \<and> base64Decode ''iVBORw=='' = Some [0x89, 0x50, 0x4E, 0x47]"
  using encodeImage_round_trip [of "\<lparr>file = pngFile, preview = 0\<rparr>"]
  by (simp add: pngFile_def encodeImage_def fileToBase64_def readAsDataURL_def base64_def
      sextetChar_def alphabet_def)

end
